theory Spec2Isabelle
  imports Main
begin

section \<open>The project locator of abstractLocator.ts\<close>

text \<open>
  The theory embeds the class \<open>AbstractLocator\<close> of \<^verbatim>\<open>src/abstractLocator.ts\<close>: its
  fields as a record, its methods as functions that take the record and return it
  updated, its exceptions as values. What the class reads from outside (the host's
  configuration, the path functions of Node, the helpers of \<^verbatim>\<open>./PathUtils\<close>, the
  directory tree, the walker package) is a parameter or a definition of its own, named
  below.
\<close>

subsection \<open>Data\<close>

text \<open>\<^verbatim>\<open>interface DirInfo { fullPath: string; name: string; }\<close>, and \<open>DirList\<close> its array.\<close>

record DirInfo =
  fullPath :: string
  name :: string

type_synonym DirList = "DirInfo list"

text \<open>
  The \<open>Project\<close> of \<^verbatim>\<open>./storage\<close>, as \<open>existsWithRootPath\<close> builds it (its fields
  \<open>rootPath\<close>, \<open>name\<close>, \<open>group\<close> and \<open>paths\<close>, here with a prefix), and what that
  method returns: \<open>null\<close> before anything was located, the record of the first match,
  or \<open>undefined\<close> when the loop ends without a match.
\<close>

record Project =
  p_rootPath :: string
  p_name :: string
  p_group :: string
  p_paths :: "string list"

datatype lookup_result = Null | Undefined | Found Project

text \<open>
  A cache file holds text. \<open>JSON.stringify\<close> of a list writes text that \<open>JSON.parse\<close>
  reads back as that list (\<open>Json\<close>); any other text makes \<open>JSON.parse\<close> throw
  (\<open>Malformed\<close>).
\<close>

datatype file_content = Json DirList | Malformed

text \<open>
  The exceptions: the one of \<open>JSON.parse\<close>, the one of reading \<open>.length\<close> of
  \<open>undefined\<close>, and the one of \<open>fs.writeFileSync\<close> when the file cannot be written (its
  directory is missing, or access is denied).
\<close>

datatype error = SyntaxError | TypeError | WriteError

text \<open>
  What becomes of the promise \<open>locateProjects\<close> returns: it resolves with a list, it is
  rejected with an exception, or it is never settled.
\<close>

datatype promise = Resolved DirList | Rejected error | Pending

text \<open>
  What is on disk below a path: a directory with its entries in the order \<open>readdir\<close>
  lists them, or anything that is not a directory.
\<close>

datatype fsnode = File | Dir "(string \<times> fsnode) list"

text \<open>
  The fields of the class. \<open>baseFolders\<close> is \<open>None\<close> when the configuration gave
  \<open>undefined\<close> for it (\<open>refreshConfig\<close> stores what it read). Two more fields stand
  for the part of the world the methods change: \<open>disk\<close>, the cache files by path, and
  \<open>walked\<close>, the roots handed to \<open>walker(...)\<close> so far, in order.
\<close>

record locator =
  dirList :: DirList
  maxDepth :: int
  ignoredFolders :: "string list"
  useCachedProjects :: bool
  alreadyLocated :: bool
  baseFolders :: "string list option"
  disk :: "string \<rightharpoonup> file_content"
  walked :: "string list"

text \<open>
  What \<open>vscode.workspace.getConfiguration("projectManager")\<close> answers for the four keys
  \<open>refreshConfig\<close> reads. Only \<open>baseFolders\<close> is read without a default.
\<close>

record config =
  cfg_baseFolders :: "string list option"
  cfg_ignoredFolders :: "string list"
  cfg_maxDepthRecursion :: int
  cfg_cacheProjectsBetweenSessions :: bool

text \<open>
  The host: \<open>path.sep\<close>, \<open>path.basename\<close> and \<open>path.join\<close> of Node, the two helpers of
  \<^verbatim>\<open>./PathUtils\<close>, the string method \<open>toLocaleLowerCase\<close>, the directory tree found
  at a path (\<open>None\<close> when \<open>fs.existsSync\<close> is false), whether \<open>fs.writeFileSync\<close>
  can write the file at a path, and the three values \<open>getCacheFile\<close> computes from the
  process environment: the path below the application-data directory, the path below
  \<^verbatim>\<open>~/.config\<close>, and whether \<open>process.platform\<close> is \<^verbatim>\<open>"linux"\<close>.
\<close>

record host =
  sep :: char
  basename :: "string \<Rightarrow> string"
  join :: "string \<Rightarrow> string \<Rightarrow> string"
  expandHomePath :: "string \<Rightarrow> string"
  compactHomePath :: "string \<Rightarrow> string"
  toLocaleLowerCase :: "string \<Rightarrow> string"
  tree :: "string \<Rightarrow> fsnode option"
  writable :: "string \<Rightarrow> bool"
  primaryCache :: string
  fallbackCache :: string
  linux :: bool

text \<open>The abstract methods a concrete locator supplies.\<close>

record hooks =
  isRepoDir :: "string \<Rightarrow> bool"
  decideProjectName :: "string \<Rightarrow> string"

subsection \<open>Small methods\<close>

text \<open>\<open>s.split(sep)\<close> of JavaScript, for a separator of one character.\<close>

fun split_str :: "char \<Rightarrow> string \<Rightarrow> string list" where
  "split_str c [] = [] # []"
| "split_str c (x # xs) =
     (if x = c then [] # split_str c xs
      else (case split_str c xs of
              [] \<Rightarrow> [x] # []
            | y # ys \<Rightarrow> (x # y) # ys))"

definition getPathDepth :: "host \<Rightarrow> string \<Rightarrow> int" where
  "getPathDepth h s = int (length (split_str (sep h) s))"

definition isMaxDeptReached :: "locator \<Rightarrow> int \<Rightarrow> int \<Rightarrow> bool" where
  "isMaxDeptReached s currentDepth initialDepth =
     (maxDepth s > 0 \<and> (currentDepth - initialDepth) > maxDepth s)"

text \<open>\<open>indexOf(folder) !== -1\<close>: the folder occurs in the array.\<close>

definition isFolderIgnored :: "locator \<Rightarrow> string \<Rightarrow> bool" where
  "isFolderIgnored s folder = List.member (ignoredFolders s) folder"

definition isAlreadyLocated :: "locator \<Rightarrow> bool" where
  "isAlreadyLocated s = (useCachedProjects s \<and> alreadyLocated s)"

definition getCacheFile :: "host \<Rightarrow> locator \<Rightarrow> string" where
  "getCacheFile h s =
     (if linux h \<and> disk s (primaryCache h) = None then fallbackCache h
      else primaryCache h)"

text \<open>
  \<open>setAlreadyLocated\<close> returns the locator and either nothing or the exception of
  \<open>fs.writeFileSync\<close>; the flag is assigned before the file is written.
\<close>

definition setAlreadyLocated :: "host \<Rightarrow> bool \<Rightarrow> locator \<Rightarrow> locator \<times> (error + unit)" where
  "setAlreadyLocated h al s =
     (if useCachedProjects s then
        (let s1 = s\<lparr>alreadyLocated := al\<rparr> in
         if alreadyLocated s1 then
           (let cacheFile = getCacheFile h s1 in
            if writable h cacheFile
            then (s1\<lparr>disk := (disk s1)(cacheFile \<mapsto> Json (dirList s1))\<rparr>, Inr ())
            else (s1, Inl WriteError))
         else (s1, Inr ()))
      else (s, Inr ()))"

definition clearDirList :: "locator \<Rightarrow> locator" where
  "clearDirList s = s\<lparr>dirList := []\<rparr>"

subsection \<open>arraysAreEquals and refreshConfig\<close>

text \<open>
  The loop of \<open>arraysAreEquals\<close>, from index \<open>i\<close> up to \<open>l\<close>. The elements are strings,
  so the branch for elements that are arrays is never taken and \<open>!==\<close> compares them.
\<close>

function arraysLoop :: "string list \<Rightarrow> string list \<Rightarrow> nat \<Rightarrow> nat \<Rightarrow> bool" where
  "arraysLoop array1 array2 i l =
     (if i < l then
        (if array1 ! i \<noteq> array2 ! i then False
         else arraysLoop array1 array2 (Suc i) l)
      else True)"
  by pat_completeness auto
termination
  by (relation "measure (\<lambda>(array1, array2, i, l). l - i)") auto

text \<open>\<open>!array\<close> holds for \<open>null\<close> and \<open>undefined\<close> only: an empty array is truthy.\<close>

definition arraysAreEquals :: "string list option \<Rightarrow> string list option \<Rightarrow> bool" where
  "arraysAreEquals array1 array2 =
     (case array1 of
        None \<Rightarrow> False
      | Some a1 \<Rightarrow>
          (case array2 of
             None \<Rightarrow> False
           | Some a2 \<Rightarrow>
               if length a1 \<noteq> length a2 then False
               else arraysLoop a1 a2 0 (length a1)))"

text \<open>
  The four blocks of \<open>refreshConfig\<close>, each on the pair of the locator and the flag
  \<open>refreshedSomething\<close>. The second block compares with \<open>this.baseFolders\<close>, which the
  first block may just have assigned.
\<close>

definition refreshBaseFolders :: "config \<Rightarrow> locator \<times> bool \<Rightarrow> locator \<times> bool" where
  "refreshBaseFolders cfg sr =
     (let currentValue = cfg_baseFolders cfg in
      if \<not> arraysAreEquals (baseFolders (fst sr)) currentValue
      then ((fst sr)\<lparr>baseFolders := currentValue\<rparr>, True)
      else sr)"

definition refreshIgnoredFolders :: "config \<Rightarrow> locator \<times> bool \<Rightarrow> locator \<times> bool" where
  "refreshIgnoredFolders cfg sr =
     (let currentValue = cfg_ignoredFolders cfg in
      if \<not> arraysAreEquals (baseFolders (fst sr)) (Some currentValue)
      then ((fst sr)\<lparr>ignoredFolders := currentValue\<rparr>, True)
      else sr)"

definition refreshMaxDepth :: "config \<Rightarrow> locator \<times> bool \<Rightarrow> locator \<times> bool" where
  "refreshMaxDepth cfg sr =
     (let currentValue = cfg_maxDepthRecursion cfg in
      if maxDepth (fst sr) \<noteq> currentValue
      then ((fst sr)\<lparr>maxDepth := currentValue\<rparr>, True)
      else sr)"

definition refreshUseCached :: "config \<Rightarrow> locator \<times> bool \<Rightarrow> locator \<times> bool" where
  "refreshUseCached cfg sr =
     (let currentValue = cfg_cacheProjectsBetweenSessions cfg in
      if useCachedProjects (fst sr) \<noteq> currentValue
      then ((fst sr)\<lparr>useCachedProjects := currentValue\<rparr>, True)
      else sr)"

definition refreshConfig :: "config \<Rightarrow> locator \<Rightarrow> locator \<times> bool" where
  "refreshConfig cfg s =
     refreshUseCached cfg
       (refreshMaxDepth cfg
          (refreshIgnoredFolders cfg
             (refreshBaseFolders cfg (s, False))))"

subsection \<open>The walk\<close>

text \<open>
  \<open>walker\<close> is the package required on the first line of the file; its code is not in
  the repository. The model follows the package's own description of \<open>filterDir\<close>: the
  callback is asked for every directory the walk reaches, the root included; a
  directory for which it answers false is skipped together with everything below it;
  a directory for which it answers true has its entries read, is announced by a
  \<open>dir\<close> event, and the walk goes on with each entry under the path
  \<open>path.join(entry, part)\<close>. The result is the list of the paths announced by \<open>dir\<close>
  events. The package runs on callbacks of the file system, so the order of its events
  is not fixed; the model fixes one order (a directory before its entries, entries in
  the order \<open>readdir\<close> gave them). Symbolic links are not followed by the package; they
  are \<open>File\<close> here.
\<close>

fun walker :: "host \<Rightarrow> (string \<Rightarrow> bool) \<Rightarrow> string \<Rightarrow> fsnode \<Rightarrow> string list"
and walkEntries :: "host \<Rightarrow> (string \<Rightarrow> bool) \<Rightarrow> string \<Rightarrow> (string \<times> fsnode) list \<Rightarrow> string list"
where
  "walker h filterDir entry File = []"
| "walker h filterDir entry (Dir files) =
     (if \<not> filterDir entry then []
      else entry # walkEntries h filterDir entry files)"
| "walkEntries h filterDir entry [] = []"
| "walkEntries h filterDir entry (pn # files) =
     walker h filterDir (join h entry (fst pn)) (snd pn) @ walkEntries h filterDir entry files"

text \<open>The callback given to \<open>filterDir\<close>; \<open>depth\<close> is the depth of the expanded base path.\<close>

definition filterDirCallback :: "host \<Rightarrow> locator \<Rightarrow> int \<Rightarrow> string \<Rightarrow> bool" where
  "filterDirCallback h s depth dir =
     (\<not> (isFolderIgnored s (basename h dir) \<or>
         isMaxDeptReached s (getPathDepth h dir) depth))"

definition addToList :: "host \<Rightarrow> string \<Rightarrow> string option \<Rightarrow> locator \<Rightarrow> locator" where
  "addToList h projectPath projectName s =
     s\<lparr>dirList := dirList s @
        [\<lparr>fullPath = projectPath,
          name = (case projectName of
                    None \<Rightarrow> basename h projectPath
                  | Some n \<Rightarrow> n)\<rparr>]\<rparr>"

text \<open>The handler of the \<open>dir\<close> event.\<close>

definition processDirectory :: "host \<Rightarrow> hooks \<Rightarrow> locator \<Rightarrow> string \<Rightarrow> locator" where
  "processDirectory h k s absPath =
     (if isRepoDir k absPath
      then addToList h absPath (Some (decideProjectName k absPath)) s
      else s)"

text \<open>
  The walk \<open>locateProjects\<close> starts on an expanded base path: the \<open>dir\<close> events of
  \<open>walker(expandedBasePath).filterDir(...)\<close>, with \<open>depth\<close> the depth of that path.
\<close>

definition walkBase :: "host \<Rightarrow> locator \<Rightarrow> string \<Rightarrow> fsnode \<Rightarrow> string list" where
  "walkBase h s expandedBasePath node =
     (let depth = getPathDepth h expandedBasePath
      in walker h (filterDirCallback h s depth) expandedBasePath node)"

text \<open>
  The body of \<open>projectsDirList.forEach\<close>: one base folder, its walk run to the end, each
  \<open>dir\<close> event handled by \<open>processDirectory\<close>. A base path that does not exist is
  skipped.
\<close>

definition locateInBase :: "host \<Rightarrow> hooks \<Rightarrow> locator \<Rightarrow> string \<Rightarrow> locator" where
  "locateInBase h k s projectBasePath =
     (let expandedBasePath = expandHomePath h projectBasePath in
      case tree h expandedBasePath of
        None \<Rightarrow> s
      | Some node \<Rightarrow>
          (let s1 = s\<lparr>walked := walked s @ [expandedBasePath]\<rparr>
           in foldl (processDirectory h k) s1 (walkBase h s1 expandedBasePath node)))"

subsection \<open>initializeCfg, locateProjects, refreshProjects, existsWithRootPath\<close>

text \<open>
  \<open>initializeCfg\<close> returns the locator and either nothing or the exception it threw.
  \<open>JSON.parse\<close> throws before \<open>this.dirList\<close> is assigned; an exception of
  \<open>setAlreadyLocated\<close> is not caught.
\<close>

definition initializeCfg :: "host \<Rightarrow> locator \<Rightarrow> locator \<times> (error + unit)" where
  "initializeCfg h s =
     (if \<not> useCachedProjects s then (clearDirList s, Inr ())
      else
        (let cacheFile = getCacheFile h s in
         case disk s cacheFile of
           None \<Rightarrow> (s, Inr ())
         | Some Malformed \<Rightarrow> (s, Inl SyntaxError)
         | Some (Json l) \<Rightarrow> setAlreadyLocated h True (s\<lparr>dirList := l\<rparr>)))"

text \<open>
  \<open>locateProjects\<close>, with every walk run to its end: the locator afterwards, and what
  becomes of the promise. An exception thrown inside its executor (\<open>.length\<close> of an
  undefined \<open>baseFolders\<close>, or the one of \<open>initializeCfg\<close>) rejects it. An exception of
  \<open>setAlreadyLocated(true)\<close> after the walks is thrown inside the \<open>then\<close> handler of
  \<open>Promise.all\<close>; the \<open>catch\<close> handler that follows shows an error message and calls
  neither \<open>resolve\<close> nor \<open>reject\<close>, so the promise stays pending.
\<close>

definition locateProjects :: "host \<Rightarrow> hooks \<Rightarrow> locator \<Rightarrow> locator \<times> promise" where
  "locateProjects h k s =
     (case baseFolders s of
        None \<Rightarrow> (s, Rejected TypeError)
      | Some projectsDirList \<Rightarrow>
          if length projectsDirList = 0 then (s, Resolved [])
          else
            (case initializeCfg h s of
               (s1, Inl e) \<Rightarrow> (s1, Rejected e)
             | (s1, Inr u) \<Rightarrow>
                 if isAlreadyLocated s1 then (s1, Resolved (dirList s1))
                 else
                   (let s2 = clearDirList s1;
                        s3 = foldl (locateInBase h k) s2 projectsDirList
                    in case setAlreadyLocated h True s3 of
                         (s4, Inl e) \<Rightarrow> (s4, Pending)
                       | (s4, Inr u) \<Rightarrow> (s4, Resolved (dirList s4)))))"

text \<open>
  \<open>refreshProjects\<close> up to the call of \<open>setAlreadyLocated(false)\<close>, and the whole of it.
  The promise of \<open>locateProjects\<close> is dropped, so what becomes of it is not seen.
  \<open>setAlreadyLocated(false)\<close> writes no file, so it throws nothing. Deleting the cache
  file is taken to succeed.
\<close>

definition refreshProjectsReset :: "host \<Rightarrow> config \<Rightarrow> locator \<Rightarrow> locator \<times> bool" where
  "refreshProjectsReset h cfg s =
     (let sr = refreshConfig cfg s;
          configChanged = snd sr;
          s2 = clearDirList (fst sr);
          cacheFile = getCacheFile h s2;
          s3 = (if disk s2 cacheFile \<noteq> None
                then s2\<lparr>disk := (disk s2)(cacheFile := None)\<rparr>
                else s2);
          s4 = fst (setAlreadyLocated h False s3)
      in (s4, configChanged))"

definition refreshProjects :: "host \<Rightarrow> hooks \<Rightarrow> config \<Rightarrow> locator \<Rightarrow> locator \<times> bool" where
  "refreshProjects h k cfg s =
     (let sr = refreshProjectsReset h cfg s
      in (fst (locateProjects h k (fst sr)), snd sr))"

text \<open>The \<open>for ... of\<close> loop of \<open>existsWithRootPath\<close>.\<close>

fun findRootPath :: "host \<Rightarrow> string \<Rightarrow> string \<Rightarrow> DirList \<Rightarrow> lookup_result" where
  "findRootPath h rootPath rootPathUsingHome [] = Undefined"
| "findRootPath h rootPath rootPathUsingHome (element # rest) =
     (if toLocaleLowerCase h (fullPath element) = toLocaleLowerCase h rootPath \<or>
         toLocaleLowerCase h (fullPath element) = rootPathUsingHome
      then Found \<lparr>p_rootPath = fullPath element, p_name = name element,
                  p_group = [], p_paths = []\<rparr>
      else findRootPath h rootPath rootPathUsingHome rest)"

definition existsWithRootPath :: "host \<Rightarrow> locator \<Rightarrow> string \<Rightarrow> locator \<times> (error + lookup_result)" where
  "existsWithRootPath h s rootPath =
     (case initializeCfg h s of
        (s1, Inl e) \<Rightarrow> (s1, Inl e)
      | (s1, Inr u) \<Rightarrow>
          if \<not> isAlreadyLocated s1 then (s1, Inr Null)
          else
            (let rootPathUsingHome = toLocaleLowerCase h (compactHomePath h rootPath)
             in (s1, Inr (findRootPath h rootPath rootPathUsingHome (dirList s1)))))"

subsection \<open>What a scan finds\<close>

text \<open>
  The entry \<open>processDirectory\<close> appends for a path, the entries one base folder
  contributes to a scan, and the roots a scan hands to the walker: the three are used
  to state what \<open>locateProjects\<close> computes.
\<close>

definition mkDirInfo :: "hooks \<Rightarrow> string \<Rightarrow> DirInfo" where
  "mkDirInfo k absPath = \<lparr>fullPath = absPath, name = decideProjectName k absPath\<rparr>"

definition discoveries :: "host \<Rightarrow> hooks \<Rightarrow> locator \<Rightarrow> string \<Rightarrow> DirList" where
  "discoveries h k s projectBasePath =
     (case tree h (expandHomePath h projectBasePath) of
        None \<Rightarrow> []
      | Some node \<Rightarrow>
          map (mkDirInfo k)
            (filter (isRepoDir k) (walkBase h s (expandHomePath h projectBasePath) node)))"

definition walkedRoots :: "host \<Rightarrow> string list \<Rightarrow> string list" where
  "walkedRoots h projectsDirList =
     filter (\<lambda>p. tree h p \<noteq> None) (map (expandHomePath h) projectsDirList)"

subsection \<open>A host, a locator variant and a directory tree to run the methods on\<close>

text \<open>
  A POSIX host whose home directory is \<^verbatim>\<open>/home/u\<close>. Its \<open>basename\<close> and \<open>join\<close> are
  those of Node on the paths used below (normalised, without a trailing separator);
  its lower-casing covers the ASCII letters; every file can be written. The second
  host is the same with no directory \<^verbatim>\<open>Code/User\<close> to hold a cache file, so that no
  cache file can be written.
\<close>

definition lowerChar :: "char \<Rightarrow> char" where
  "lowerChar c =
     (let n = (of_char c :: nat) in if 65 \<le> n \<and> n \<le> 90 then char_of (n + 32) else c)"

definition posixHost :: "(string \<Rightarrow> fsnode option) \<Rightarrow> host" where
  "posixHost t =
     \<lparr>sep = CHR ''/'',
      basename = (\<lambda>p. last (split_str CHR ''/'' p)),
      join = (\<lambda>entry part. entry @ ''/'' @ part),
      expandHomePath = (\<lambda>p. if take 1 p = ''~'' then ''/home/u'' @ drop 1 p else p),
      compactHomePath = (\<lambda>p. if take 7 p = ''/home/u'' then ''$home'' @ drop 7 p else p),
      toLocaleLowerCase = map lowerChar,
      tree = t,
      writable = (\<lambda>p. True),
      primaryCache = ''/var/local/Code/User/projects_cache_git.json'',
      fallbackCache = ''/home/u/.config/Code/User/projects_cache_git.json'',
      linux = True\<rparr>"


text \<open>
  Below \<^verbatim>\<open>/home/u/work\<close>: \<^verbatim>\<open>a/.git\<close>, \<^verbatim>\<open>a/node_modules/.git\<close>,
  \<^verbatim>\<open>a/node_modules/b/.git\<close> and \<^verbatim>\<open>a/x/y/.git\<close>. Nothing else exists.
\<close>

definition modulesNode :: fsnode where
  "modulesNode = Dir [(''.git'', Dir []), (''b'', Dir [(''.git'', Dir [])])]"

definition workNode :: fsnode where
  "workNode =
     Dir [(''a'', Dir [(''.git'', Dir []),
                      (''node_modules'', modulesNode),
                      (''x'', Dir [(''y'', Dir [(''.git'', Dir [])])])])]"

definition workTree :: "string \<Rightarrow> fsnode option" where
  "workTree p = (if p = ''/home/u/work'' then Some workNode else None)"

text \<open>A variant for which the project roots are the directories that hold \<^verbatim>\<open>.git\<close>.\<close>

definition gitHooks :: hooks where
  "gitHooks =
     \<lparr>isRepoDir = List.member [''/home/u/work/a'', ''/home/u/work/a/node_modules'',
                               ''/home/u/work/a/node_modules/b'', ''/home/u/work/a/x/y''],
      decideProjectName = (\<lambda>p. last (split_str CHR ''/'' p))\<rparr>"

text \<open>The locator the constructor leaves before it calls \<open>refreshConfig\<close>, on an empty disk.\<close>

definition newLocator :: locator where
  "newLocator =
     \<lparr>dirList = [], maxDepth = -1, ignoredFolders = [], useCachedProjects = True,
      alreadyLocated = False, baseFolders = Some [], disk = Map.empty, walked = []\<rparr>"

definition workConfig :: config where
  "workConfig =
     \<lparr>cfg_baseFolders = Some [''~/work''], cfg_ignoredFolders = [''node_modules''],
      cfg_maxDepthRecursion = 2, cfg_cacheProjectsBetweenSessions = True\<rparr>"

text \<open>
  A locator whose base folder was \<^verbatim>\<open>work\<close>, and a configuration in which the base
  folder has become \<^verbatim>\<open>src\<close> while \<^verbatim>\<open>work\<close> is now to be ignored.
\<close>

definition workLocator :: locator where
  "workLocator = newLocator\<lparr>baseFolders := Some [''work''], ignoredFolders := [''x'']\<rparr>"

definition movedConfig :: config where
  "movedConfig =
     \<lparr>cfg_baseFolders = Some [''src''], cfg_ignoredFolders = [''work''],
      cfg_maxDepthRecursion = -1, cfg_cacheProjectsBetweenSessions = True\<rparr>"

text \<open>
  The locator the constructor returns under \<open>workConfig\<close>; the same with a cache file
  that does not parse; the same after a scan that found \<^verbatim>\<open>a\<close>, and that one with
  caching switched off; the configuration with caching switched off.
\<close>

definition workStart :: locator where
  "workStart = fst (refreshConfig workConfig newLocator)"

definition corruptLocator :: locator where
  "corruptLocator =
     workStart\<lparr>disk := [''/home/u/.config/Code/User/projects_cache_git.json'' \<mapsto> Malformed]\<rparr>"

definition locatedLocator :: locator where
  "locatedLocator =
     workStart\<lparr>dirList := [\<lparr>fullPath = ''/home/u/work/a'', name = ''a''\<rparr>],
               alreadyLocated := True\<rparr>"

definition uncachedLocator :: locator where
  "uncachedLocator = locatedLocator\<lparr>useCachedProjects := False\<rparr>"

definition uncachedConfig :: config where
  "uncachedConfig = workConfig\<lparr>cfg_cacheProjectsBetweenSessions := False\<rparr>"

text \<open>
  The base folder configured twice, once with the home directory abbreviated; a located
  locator with its cache file in place; a locator that finds a cache file under both
  paths \<open>getCacheFile\<close> knows; a locator that has not located yet and finds the cache
  file of an earlier session.
\<close>

definition twiceLocator :: locator where
  "twiceLocator = workStart\<lparr>baseFolders := Some [''~/work'', ''/home/u/work'']\<rparr>"

definition cachedLocator :: locator where
  "cachedLocator =
     locatedLocator
       \<lparr>disk := [''/home/u/.config/Code/User/projects_cache_git.json'' \<mapsto>
                   Json [\<lparr>fullPath = ''/home/u/work/a'', name = ''a''\<rparr>]]\<rparr>"

definition twoCachesLocator :: locator where
  "twoCachesLocator =
     locatedLocator
       \<lparr>disk := [''/var/local/Code/User/projects_cache_git.json'' \<mapsto>
                   Json [\<lparr>fullPath = ''/home/u/work/a'', name = ''a''\<rparr>],
                 ''/home/u/.config/Code/User/projects_cache_git.json'' \<mapsto>
                   Json [\<lparr>fullPath = ''/home/u/old'', name = ''old''\<rparr>]]\<rparr>"


section \<open>Properties\<close>

subsection \<open>Comparing arrays and refreshing the configuration\<close>

declare arraysLoop.simps [simp del]

lemma arraysLoop_iff:
  "arraysLoop a1 a2 i l = (\<forall>j. i \<le> j \<and> j < l \<longrightarrow> a1 ! j = a2 ! j)"
proof (induction a1 a2 i l rule: arraysLoop.induct)
  case (1 a1 a2 i l)
  show ?case
  proof (cases "i < l")
    case False
    then show ?thesis by (auto simp: arraysLoop.simps [of a1 a2 i l])
  next
    case True
    show ?thesis
    proof (cases "a1 ! i = a2 ! i")
      case False
      with True show ?thesis
        by (auto simp: arraysLoop.simps [of a1 a2 i l])
    next
      case same: True
      have "arraysLoop a1 a2 i l = arraysLoop a1 a2 (Suc i) l"
        using True same by (simp add: arraysLoop.simps [of a1 a2 i l])
      also have "\<dots> = (\<forall>j. Suc i \<le> j \<and> j < l \<longrightarrow> a1 ! j = a2 ! j)"
        using "1.IH" True same by simp
      also have "\<dots> = (\<forall>j. i \<le> j \<and> j < l \<longrightarrow> a1 ! j = a2 ! j)"
        using same by (metis Suc_leI le_neq_implies_less Suc_leD)
      finally show ?thesis .
    qed
  qed
qed

text \<open>On two arrays the check is equality of the lists.\<close>

lemma arraysAreEquals_Some: "arraysAreEquals (Some a1) (Some a2) = (a1 = a2)"
  by (auto simp: arraysAreEquals_def arraysLoop_iff list_eq_iff_nth_eq)

lemma arraysAreEquals_iff: "arraysAreEquals x y = (x \<noteq> None \<and> x = y)"
  by (cases x; cases y) (simp_all add: arraysAreEquals_Some, simp_all add: arraysAreEquals_def)

lemma refreshBaseFolders_eq:
  "refreshBaseFolders cfg (s, r) =
     (s\<lparr>baseFolders := cfg_baseFolders cfg\<rparr>,
      r \<or> baseFolders s = None \<or> baseFolders s \<noteq> cfg_baseFolders cfg)"
  by (auto simp: refreshBaseFolders_def arraysAreEquals_iff Let_def)

lemma refreshIgnoredFolders_eq:
  "refreshIgnoredFolders cfg (s, r) =
     (if baseFolders s = Some (cfg_ignoredFolders cfg) then (s, r)
      else (s\<lparr>ignoredFolders := cfg_ignoredFolders cfg\<rparr>, True))"
  by (auto simp: refreshIgnoredFolders_def arraysAreEquals_iff Let_def)

lemma refreshMaxDepth_eq:
  "refreshMaxDepth cfg (s, r) =
     (s\<lparr>maxDepth := cfg_maxDepthRecursion cfg\<rparr>,
      r \<or> maxDepth s \<noteq> cfg_maxDepthRecursion cfg)"
  by (auto simp: refreshMaxDepth_def Let_def)

lemma refreshUseCached_eq:
  "refreshUseCached cfg (s, r) =
     (s\<lparr>useCachedProjects := cfg_cacheProjectsBetweenSessions cfg\<rparr>,
      r \<or> useCachedProjects s \<noteq> cfg_cacheProjectsBetweenSessions cfg)"
  by (auto simp: refreshUseCached_def Let_def)

text \<open>What \<open>refreshConfig\<close> leaves and returns, in one equation.\<close>

lemma refreshConfig_eq:
  "refreshConfig cfg s =
     (s\<lparr>baseFolders := cfg_baseFolders cfg,
        ignoredFolders := (if cfg_baseFolders cfg = Some (cfg_ignoredFolders cfg)
                           then ignoredFolders s else cfg_ignoredFolders cfg),
        maxDepth := cfg_maxDepthRecursion cfg,
        useCachedProjects := cfg_cacheProjectsBetweenSessions cfg\<rparr>,
      (baseFolders s = None \<or> baseFolders s \<noteq> cfg_baseFolders cfg) \<or>
      cfg_baseFolders cfg \<noteq> Some (cfg_ignoredFolders cfg) \<or>
      maxDepth s \<noteq> cfg_maxDepthRecursion cfg \<or>
      useCachedProjects s \<noteq> cfg_cacheProjectsBetweenSessions cfg)"
  by (auto simp: refreshConfig_def refreshBaseFolders_eq refreshIgnoredFolders_eq
        refreshMaxDepth_eq refreshUseCached_eq)

text \<open>
  C10. \<open>arraysAreEquals\<close> is false as soon as one argument is missing, also when both
  are. So \<open>refreshConfig\<close> returns true whenever the configuration has no array for
  \<open>baseFolders\<close>, whatever the locator holds, an absent \<open>baseFolders\<close> included.
\<close>

theorem arraysAreEquals_missing:
  "arraysAreEquals None array2 = False \<and>
   arraysAreEquals array1 None = False \<and>
   arraysAreEquals None None = False \<and>
   snd (refreshConfig (cfg\<lparr>cfg_baseFolders := None\<rparr>) s) = True \<and>
   snd (refreshConfig (cfg\<lparr>cfg_baseFolders := None\<rparr>) (s\<lparr>baseFolders := None\<rparr>)) = True"
  by (auto simp: arraysAreEquals_iff refreshConfig_eq)

theorem arraysAreEquals_missing_witness:
  "snd (refreshConfig (workConfig\<lparr>cfg_baseFolders := None\<rparr>)
          (newLocator\<lparr>baseFolders := None\<rparr>)) = True"
  using arraysAreEquals_missing [of "Some []" "Some []" workConfig newLocator] by simp

text \<open>
  C3, as stated, at \<open>workLocator\<close> and \<open>movedConfig\<close>: the freshly read \<open>ignoredFolders\<close>
  equals the \<open>baseFolders\<close> the locator held before the call, so a test against that old
  field would find no change; yet the block for the ignored folders reports a change
  and assigns the field.
\<close>

theorem refreshConfig_old_baseFolders_counterexample:
  "arraysAreEquals (baseFolders workLocator) (Some (cfg_ignoredFolders movedConfig)) \<and>
   snd (refreshIgnoredFolders movedConfig
          (fst (refreshBaseFolders movedConfig (workLocator, False)), False)) = True \<and>
   ignoredFolders workLocator = [''x''] \<and>
   ignoredFolders (fst (refreshConfig movedConfig workLocator)) = [''work'']"
  by (simp add: arraysAreEquals_iff refreshIgnoredFolders_eq refreshBaseFolders_eq
        refreshConfig_eq workLocator_def movedConfig_def newLocator_def)

text \<open>
  C3, amended. When the block for the ignored folders runs, \<open>this.baseFolders\<close> already
  holds the value just read for \<open>baseFolders\<close>. The block compares the freshly read
  \<open>ignoredFolders\<close> with that field: it reports a change, and assigns
  \<open>ignoredFolders\<close>, exactly when the two differ or \<open>baseFolders\<close> is absent. Neither
  the \<open>ignoredFolders\<close> nor the \<open>baseFolders\<close> the locator held before the call
  enters the test.
\<close>

theorem refreshConfig_ignoredFolders_test:
  "baseFolders (fst (refreshBaseFolders cfg (s, False))) = cfg_baseFolders cfg \<and>
   snd (refreshIgnoredFolders cfg (s1, False)) =
     (baseFolders s1 \<noteq> Some (cfg_ignoredFolders cfg)) \<and>
   snd (refreshIgnoredFolders cfg (fst (refreshBaseFolders cfg (s, False)), False)) =
     (cfg_baseFolders cfg \<noteq> Some (cfg_ignoredFolders cfg)) \<and>
   ignoredFolders (fst (refreshConfig cfg s)) =
     (if cfg_baseFolders cfg = Some (cfg_ignoredFolders cfg) then ignoredFolders s
      else cfg_ignoredFolders cfg)"
  by (simp add: refreshBaseFolders_eq refreshIgnoredFolders_eq refreshConfig_eq)

theorem refreshConfig_ignoredFolders_test_witness:
  "snd (refreshIgnoredFolders workConfig
          (fst (refreshBaseFolders workConfig (newLocator, False)), False)) = True \<and>
   ignoredFolders (fst (refreshConfig workConfig newLocator)) = [''node_modules'']"
  using refreshConfig_ignoredFolders_test [of workConfig newLocator newLocator]
  by (simp add: workConfig_def)

subsection \<open>What a scan changes\<close>

lemma processDirectory_eq:
  "processDirectory h k s p =
     s\<lparr>dirList := dirList s @ (if isRepoDir k p then [mkDirInfo k p] else [])\<rparr>"
  by (simp add: processDirectory_def addToList_def mkDirInfo_def)

lemma foldl_processDirectory:
  "foldl (processDirectory h k) s ps =
     s\<lparr>dirList := dirList s @ map (mkDirInfo k) (filter (isRepoDir k) ps)\<rparr>"
  by (induction ps arbitrary: s) (simp_all add: processDirectory_eq)

text \<open>The callback reads two fields of the locator only.\<close>

lemma filterDirCallback_cong:
  "ignoredFolders s' = ignoredFolders s \<Longrightarrow> maxDepth s' = maxDepth s \<Longrightarrow>
   filterDirCallback h s' = filterDirCallback h s"
  by (simp add: fun_eq_iff filterDirCallback_def isFolderIgnored_def isMaxDeptReached_def)

lemma walkBase_cong:
  "ignoredFolders s' = ignoredFolders s \<Longrightarrow> maxDepth s' = maxDepth s \<Longrightarrow>
   walkBase h s' = walkBase h s"
  by (simp add: fun_eq_iff walkBase_def filterDirCallback_cong [of s' s])

lemma discoveries_cong:
  "ignoredFolders s' = ignoredFolders s \<Longrightarrow> maxDepth s' = maxDepth s \<Longrightarrow>
   discoveries h k s' = discoveries h k s"
  by (simp add: fun_eq_iff discoveries_def walkBase_cong [of s' s] split: option.split)

lemma locateInBase_eq:
  "locateInBase h k s b =
     s\<lparr>dirList := dirList s @ discoveries h k s b,
       walked := walked s @ walkedRoots h [b]\<rparr>"
  by (simp add: locateInBase_def discoveries_def walkedRoots_def foldl_processDirectory
        walkBase_cong [of "s\<lparr>walked := walked s @ [expandHomePath h b]\<rparr>" s] Let_def
      split: option.split)

lemma foldl_locateInBase:
  "foldl (locateInBase h k) s bs =
     s\<lparr>dirList := dirList s @ concat (map (discoveries h k s) bs),
       walked := walked s @ walkedRoots h bs\<rparr>"
proof (induction bs arbitrary: s)
  case Nil
  show ?case by (simp add: walkedRoots_def)
next
  case (Cons b bs)
  let ?s1 = "locateInBase h k s b"
  have same: "discoveries h k ?s1 = discoveries h k s"
    by (rule discoveries_cong) (simp_all add: locateInBase_eq)
  show ?case
    by (simp add: Cons.IH same) (simp add: locateInBase_eq walkedRoots_def)
qed

text \<open>Every path the walker announces has passed the callback.\<close>

lemma walker_filter:
  "dir \<in> set (walker h f entry node) \<Longrightarrow> f dir"
  "dir \<in> set (walkEntries h f entry files) \<Longrightarrow> f dir"
  by (induction h f entry node and h f entry files rule: walker_walkEntries.induct)
     (auto split: if_splits)

lemma walker_rejected: "\<not> f entry \<Longrightarrow> walker h f entry node = []"
  by (cases node) simp_all

subsection \<open>The cache and the located flag\<close>

lemma getCacheFile_cong: "disk s' = disk s \<Longrightarrow> getCacheFile h s' = getCacheFile h s"
  by (simp add: getCacheFile_def)


lemma setAlreadyLocated_False:
  "setAlreadyLocated h False s =
     (if useCachedProjects s then s\<lparr>alreadyLocated := False\<rparr> else s, Inr ())"
  by (simp add: setAlreadyLocated_def)

lemma setAlreadyLocated_True:
  "setAlreadyLocated h True s =
     (if useCachedProjects s then
        (if writable h (getCacheFile h s)
         then (s\<lparr>alreadyLocated := True,
                 disk := (disk s)(getCacheFile h s \<mapsto> Json (dirList s))\<rparr>, Inr ())
         else (s\<lparr>alreadyLocated := True\<rparr>, Inl WriteError))
      else (s, Inr ()))"
  by (simp add: setAlreadyLocated_def Let_def
        getCacheFile_cong [of "s\<lparr>alreadyLocated := True\<rparr>" s])

text \<open>What \<open>refreshProjects\<close> has done when it reaches its call of \<open>locateProjects\<close>.\<close>

lemma refreshProjectsReset_eq:
  "refreshProjectsReset h cfg s =
     ((fst (refreshConfig cfg s))
        \<lparr>dirList := [],
         disk := (disk s)(getCacheFile h s := None),
         alreadyLocated :=
           (if cfg_cacheProjectsBetweenSessions cfg then False else alreadyLocated s)\<rparr>,
      snd (refreshConfig cfg s))"
proof -
  have c: "getCacheFile h (clearDirList (fst (refreshConfig cfg s))) = getCacheFile h s"
    by (rule getCacheFile_cong) (simp add: refreshConfig_eq clearDirList_def)
  have idem: "disk s (getCacheFile h s) = None \<Longrightarrow>
              (disk s)(getCacheFile h s := None) = disk s"
    by (rule fun_upd_idem) simp
  show ?thesis
    unfolding refreshProjectsReset_def Let_def c
    by (simp add: refreshConfig_eq clearDirList_def setAlreadyLocated_False idem)
qed

text \<open>\<open>initializeCfg\<close> with caching enabled, by what the cache file holds.\<close>

lemma initializeCfg_cached:
  "useCachedProjects s \<Longrightarrow>
   initializeCfg h s =
     (case disk s (getCacheFile h s) of
        None \<Rightarrow> (s, Inr ())
      | Some Malformed \<Rightarrow> (s, Inl SyntaxError)
      | Some (Json l) \<Rightarrow>
          if writable h (getCacheFile h s)
          then (s\<lparr>dirList := l, alreadyLocated := True,
                  disk := (disk s)(getCacheFile h s \<mapsto> Json l)\<rparr>, Inr ())
          else (s\<lparr>dirList := l, alreadyLocated := True\<rparr>, Inl WriteError))"
  by (simp add: initializeCfg_def setAlreadyLocated_True Let_def
        getCacheFile_cong [of "s\<lparr>dirList := _\<rparr>" s]
      split: option.split file_content.split)

text \<open>
  The four ways a call of \<open>locateProjects\<close> with base folders goes: caching disabled;
  a cache file that parses; no cache file and the flag set; no cache file and the flag
  not set.
\<close>

lemma locateProjects_uncached_scan:
  "\<not> useCachedProjects s \<Longrightarrow> baseFolders s = Some bs \<Longrightarrow> bs \<noteq> [] \<Longrightarrow>
   locateProjects h k s =
     (s\<lparr>dirList := concat (map (discoveries h k s) bs),
        walked := walked s @ walkedRoots h bs\<rparr>,
      Resolved (concat (map (discoveries h k s) bs)))"
  by (simp add: locateProjects_def initializeCfg_def isAlreadyLocated_def clearDirList_def
        setAlreadyLocated_True foldl_locateInBase Let_def
        discoveries_cong [of "s\<lparr>dirList := []\<rparr>" s])



lemma locateProjects_fresh:
  "useCachedProjects s \<Longrightarrow> baseFolders s = Some bs \<Longrightarrow> bs \<noteq> [] \<Longrightarrow>
   disk s (getCacheFile h s) = None \<Longrightarrow> \<not> alreadyLocated s \<Longrightarrow>
   locateProjects h k s =
     (if writable h (getCacheFile h s)
      then (s\<lparr>dirList := concat (map (discoveries h k s) bs),
              walked := walked s @ walkedRoots h bs,
              alreadyLocated := True,
              disk := (disk s)(getCacheFile h s \<mapsto>
                         Json (concat (map (discoveries h k s) bs)))\<rparr>,
            Resolved (concat (map (discoveries h k s) bs)))
      else (s\<lparr>dirList := concat (map (discoveries h k s) bs),
              walked := walked s @ walkedRoots h bs,
              alreadyLocated := True\<rparr>, Pending))"
  by (simp add: locateProjects_def initializeCfg_cached isAlreadyLocated_def clearDirList_def
        setAlreadyLocated_True foldl_locateInBase Let_def
        discoveries_cong [of "s\<lparr>dirList := []\<rparr>" s]
        getCacheFile_cong [of "s\<lparr>dirList := _, walked := _\<rparr>" s])

lemma locateProjects_uncached:
  "\<not> useCachedProjects s \<Longrightarrow>
   alreadyLocated (fst (locateProjects h k s)) = alreadyLocated s \<and>
   useCachedProjects (fst (locateProjects h k s)) = useCachedProjects s \<and>
   disk (fst (locateProjects h k s)) = disk s"
  by (simp add: locateProjects_def initializeCfg_def isAlreadyLocated_def clearDirList_def
        setAlreadyLocated_True foldl_locateInBase Let_def split: option.split)

text \<open>
  C7. With caching enabled and a cache file that does not parse, \<open>initializeCfg\<close> ends
  with the exception of \<open>JSON.parse\<close> and leaves the locator as it was: the list is
  not emptied and the locator is not marked as located. Its callers do not catch the
  exception either: \<open>existsWithRootPath\<close> ends with it, and the promise of
  \<open>locateProjects\<close> is rejected with it when there are base folders.
\<close>

theorem initializeCfg_corrupt_cache:
  "useCachedProjects s \<Longrightarrow> disk s (getCacheFile h s) = Some Malformed \<Longrightarrow>
   initializeCfg h s = (s, Inl SyntaxError) \<and>
   existsWithRootPath h s rootPath = (s, Inl SyntaxError) \<and>
   (baseFolders s = Some projectsDirList \<and> projectsDirList \<noteq> [] \<longrightarrow>
      locateProjects h k s = (s, Rejected SyntaxError))"
  by (simp add: initializeCfg_def existsWithRootPath_def locateProjects_def)

theorem initializeCfg_corrupt_cache_witness:
  "useCachedProjects corruptLocator \<and>
   disk corruptLocator (getCacheFile (posixHost workTree) corruptLocator) = Some Malformed \<and>
   baseFolders corruptLocator = Some [''~/work''] \<and>
   initializeCfg (posixHost workTree) corruptLocator = (corruptLocator, Inl SyntaxError) \<and>
   locateProjects (posixHost workTree) gitHooks corruptLocator =
     (corruptLocator, Rejected SyntaxError)"
proof -
  have h1: "useCachedProjects corruptLocator"
    by code_simp
  have h2: "disk corruptLocator (getCacheFile (posixHost workTree) corruptLocator) =
            Some Malformed"
    by code_simp
  have h3: "baseFolders corruptLocator = Some [''~/work'']"
    by code_simp
  from initializeCfg_corrupt_cache
         [OF h1 h2, of "''/home/u/work/a''" "[''~/work'']" gitHooks] h1 h2 h3
  show ?thesis by simp
qed

text \<open>
  C9. While \<open>useCachedProjects\<close> is false, \<open>setAlreadyLocated\<close> changes nothing and
  throws nothing, for either argument: the flag keeps its value and no file is
  written. So when the configuration has caching switched off, the flag is the same
  after \<open>refreshProjects\<close> has called \<open>setAlreadyLocated(false)\<close>, and after the whole
  of \<open>refreshProjects\<close>, as it was before.
\<close>

theorem setAlreadyLocated_without_cache:
  "(\<not> useCachedProjects s \<longrightarrow>
      setAlreadyLocated h True s = (s, Inr ()) \<and>
      setAlreadyLocated h False s = (s, Inr ())) \<and>
   (\<not> cfg_cacheProjectsBetweenSessions cfg \<longrightarrow>
      alreadyLocated (fst (refreshProjectsReset h cfg s)) = alreadyLocated s \<and>
      alreadyLocated (fst (refreshProjects h k cfg s)) = alreadyLocated s)"
proof -
  have "alreadyLocated (fst (refreshProjects h k cfg s)) = alreadyLocated s"
    if off: "\<not> cfg_cacheProjectsBetweenSessions cfg"
  proof -
    let ?s4 = "fst (refreshProjectsReset h cfg s)"
    have "\<not> useCachedProjects ?s4"
      using off by (simp add: refreshProjectsReset_eq refreshConfig_eq)
    then have "alreadyLocated (fst (locateProjects h k ?s4)) = alreadyLocated ?s4"
      by (simp add: locateProjects_uncached)
    then show ?thesis
      using off by (simp add: refreshProjects_def Let_def refreshProjectsReset_eq)
  qed
  then show ?thesis
    by (simp add: setAlreadyLocated_def refreshProjectsReset_eq)
qed

theorem setAlreadyLocated_without_cache_witness:
  "\<not> useCachedProjects uncachedLocator \<and>
   setAlreadyLocated (posixHost workTree) False uncachedLocator = (uncachedLocator, Inr ()) \<and>
   setAlreadyLocated (posixHost workTree) True uncachedLocator = (uncachedLocator, Inr ()) \<and>
   \<not> cfg_cacheProjectsBetweenSessions uncachedConfig \<and>
   alreadyLocated locatedLocator = True \<and>
   alreadyLocated
     (fst (refreshProjects (posixHost workTree) gitHooks uncachedConfig locatedLocator)) = True"
proof -
  have h1: "\<not> useCachedProjects uncachedLocator"
    by code_simp
  have h2: "\<not> cfg_cacheProjectsBetweenSessions uncachedConfig"
    by code_simp
  have h3: "alreadyLocated locatedLocator = True"
    by code_simp
  from setAlreadyLocated_without_cache
         [of uncachedLocator "posixHost workTree" uncachedConfig gitHooks]
       setAlreadyLocated_without_cache
         [of locatedLocator "posixHost workTree" uncachedConfig gitHooks]
       h1 h2 h3
  show ?thesis by simp
qed

subsection \<open>The walk and what it adds to the list\<close>

text \<open>
  A walk announces a directory only if the callback accepted it, so the two tests of
  the callback hold for every path handed to \<open>processDirectory\<close>.
\<close>

lemma walkBase_filter:
  "dir \<in> set (walkBase h s base node) \<Longrightarrow>
   \<not> isFolderIgnored s (basename h dir) \<and>
   \<not> isMaxDeptReached s (getPathDepth h dir) (getPathDepth h base)"
  using walker_filter(1) [of dir h "filterDirCallback h s (getPathDepth h base)" base node]
  by (simp add: walkBase_def filterDirCallback_def)

text \<open>
  A call of \<open>locateProjects\<close> with base folders that does not end early: the list it
  leaves, and what becomes of its promise.
\<close>

lemma locateProjects_scan:
  assumes bs: "baseFolders s = Some bs" "bs \<noteq> []"
    and ok: "snd (initializeCfg h s) = Inr ()"
    and notyet: "\<not> isAlreadyLocated (fst (initializeCfg h s))"
  shows "dirList (fst (locateProjects h k s)) =
           concat (map (discoveries h k (fst (initializeCfg h s))) bs) \<and>
         walked (fst (locateProjects h k s)) = walked s @ walkedRoots h bs \<and>
         snd (locateProjects h k s) =
           (if useCachedProjects s \<and> \<not> writable h (getCacheFile h s) then Pending
            else Resolved (concat (map (discoveries h k (fst (initializeCfg h s))) bs)))"
proof (cases "useCachedProjects s")
  case False
  have "discoveries h k (fst (initializeCfg h s)) = discoveries h k s"
    by (rule discoveries_cong) (simp_all add: initializeCfg_def clearDirList_def False)
  then show ?thesis
    using False by (simp add: locateProjects_uncached_scan [OF False bs])
next
  case True
  have none: "disk s (getCacheFile h s) = None"
    using ok notyet True
    by (auto simp: initializeCfg_cached isAlreadyLocated_def
          split: option.splits file_content.splits if_splits)
  then have same: "initializeCfg h s = (s, Inr ())"
    using True by (simp add: initializeCfg_cached)
  then have "\<not> alreadyLocated s"
    using notyet True by (simp add: isAlreadyLocated_def)
  from locateProjects_fresh [OF True bs none this, of k] same True
  show ?thesis by simp
qed

text \<open>
  C8. \<open>processDirectory\<close> appends an entry for every path for which \<open>isRepoDir\<close>
  holds, whatever the list already contains. The base folders of a scan add their
  discoveries one after the other, and the list a scan leaves is the concatenation of
  the discoveries of all base folders: a project found from two base folders is in it
  twice. The promise resolves with that list, unless writing the cache file throws.
\<close>

theorem scan_no_deduplication:
  "dirList (processDirectory h k s absPath) =
     dirList s @ (if isRepoDir k absPath
                  then [\<lparr>fullPath = absPath, name = decideProjectName k absPath\<rparr>]
                  else []) \<and>
   dirList (foldl (locateInBase h k) s projectsDirList) =
     dirList s @ concat (map (discoveries h k s) projectsDirList) \<and>
   (baseFolders s = Some projectsDirList \<and> snd (initializeCfg h s) = Inr () \<and>
    \<not> isAlreadyLocated (fst (initializeCfg h s)) \<longrightarrow>
      snd (locateProjects h k s) =
        (if projectsDirList \<noteq> [] \<and> useCachedProjects s \<and>
            \<not> writable h (getCacheFile h s)
         then Pending
         else Resolved (concat (map (discoveries h k (fst (initializeCfg h s)))
                                  projectsDirList))) \<and>
      (projectsDirList \<noteq> [] \<longrightarrow>
         dirList (fst (locateProjects h k s)) =
           concat (map (discoveries h k (fst (initializeCfg h s))) projectsDirList)))"
proof -
  have "snd (locateProjects h k s) =
        (if projectsDirList \<noteq> [] \<and> useCachedProjects s \<and>
            \<not> writable h (getCacheFile h s)
         then Pending
         else Resolved (concat (map (discoveries h k (fst (initializeCfg h s)))
                                  projectsDirList))) \<and>
      (projectsDirList \<noteq> [] \<longrightarrow>
         dirList (fst (locateProjects h k s)) =
           concat (map (discoveries h k (fst (initializeCfg h s))) projectsDirList))"
    if "baseFolders s = Some projectsDirList" "snd (initializeCfg h s) = Inr ()"
       "\<not> isAlreadyLocated (fst (initializeCfg h s))"
  proof (cases "projectsDirList = []")
    case True
    with that(1) show ?thesis by (simp add: locateProjects_def)
  next
    case False
    from locateProjects_scan [OF that(1) False that(2,3), of k] False
    show ?thesis by simp
  qed
  then show ?thesis
    by (simp add: processDirectory_eq mkDirInfo_def foldl_locateInBase)
qed

theorem scan_no_deduplication_witness:
  "baseFolders twiceLocator = Some [''~/work'', ''/home/u/work''] \<and>
   snd (initializeCfg (posixHost workTree) twiceLocator) = Inr () \<and>
   \<not> isAlreadyLocated (fst (initializeCfg (posixHost workTree) twiceLocator)) \<and>
   writable (posixHost workTree) (getCacheFile (posixHost workTree) twiceLocator) \<and>
   snd (locateProjects (posixHost workTree) gitHooks twiceLocator) =
     Resolved [\<lparr>fullPath = ''/home/u/work/a'', name = ''a''\<rparr>,
               \<lparr>fullPath = ''/home/u/work/a'', name = ''a''\<rparr>] \<and>
   dirList (fst (locateProjects (posixHost workTree) gitHooks twiceLocator)) =
     [\<lparr>fullPath = ''/home/u/work/a'', name = ''a''\<rparr>,
      \<lparr>fullPath = ''/home/u/work/a'', name = ''a''\<rparr>]"
proof -
  have h1: "baseFolders twiceLocator = Some [''~/work'', ''/home/u/work'']"
    by code_simp
  have h2: "snd (initializeCfg (posixHost workTree) twiceLocator) = Inr ()"
    by code_simp
  have h3: "\<not> isAlreadyLocated (fst (initializeCfg (posixHost workTree) twiceLocator))"
    by code_simp
  have h4: "writable (posixHost workTree) (getCacheFile (posixHost workTree) twiceLocator)"
    by code_simp
  have d: "concat (map (discoveries (posixHost workTree) gitHooks
                          (fst (initializeCfg (posixHost workTree) twiceLocator)))
                     [''~/work'', ''/home/u/work'']) =
           [\<lparr>fullPath = ''/home/u/work/a'', name = ''a''\<rparr>,
            \<lparr>fullPath = ''/home/u/work/a'', name = ''a''\<rparr>]"
    by code_simp
  from scan_no_deduplication
         [where h = "posixHost workTree" and k = gitHooks and s = twiceLocator
            and projectsDirList = "[''~/work'', ''/home/u/work'']"]
  have "snd (locateProjects (posixHost workTree) gitHooks twiceLocator) =
          Resolved (concat (map (discoveries (posixHost workTree) gitHooks
                              (fst (initializeCfg (posixHost workTree) twiceLocator)))
                         [''~/work'', ''/home/u/work''])) \<and>
        dirList (fst (locateProjects (posixHost workTree) gitHooks twiceLocator)) =
          concat (map (discoveries (posixHost workTree) gitHooks
                              (fst (initializeCfg (posixHost workTree) twiceLocator)))
                         [''~/work'', ''/home/u/work''])"
    using h1 h2 h3 h4 by simp
  with h1 h2 h3 h4 d show ?thesis by metis
qed

text \<open>
  C2. With \<open>maxDepth = N > 0\<close>, every directory a walk of \<open>locateProjects\<close> announces,
  which are the directories whose entries it reads and the paths it passes to
  \<open>processDirectory\<close> and so to \<open>isRepoDir\<close>, lies at most \<open>N\<close> levels below the
  expanded base path, levels counted by \<open>getPathDepth\<close>; so does every entry a base
  folder adds to the list. With \<open>maxDepth \<le> 0\<close> the depth test is never true and
  the walk is the one that skips the ignored folders only.
\<close>

theorem walk_respects_maxDepth:
  "(dir \<in> set (walkBase h s expandedBasePath node) \<and> 0 < maxDepth s \<longrightarrow>
      getPathDepth h dir - getPathDepth h expandedBasePath \<le> maxDepth s) \<and>
   (e \<in> set (discoveries h k s projectBasePath) \<and> 0 < maxDepth s \<longrightarrow>
      getPathDepth h (fullPath e) - getPathDepth h (expandHomePath h projectBasePath)
        \<le> maxDepth s) \<and>
   (maxDepth s \<le> 0 \<longrightarrow>
      isMaxDeptReached s currentDepth initialDepth = False \<and>
      walkBase h s expandedBasePath node =
        walker h (\<lambda>dir. \<not> isFolderIgnored s (basename h dir)) expandedBasePath node)"
proof -
  have a: "getPathDepth h dir - getPathDepth h b \<le> maxDepth s"
    if "dir \<in> set (walkBase h s b n)" "0 < maxDepth s" for dir b n
    using walkBase_filter [OF that(1)] that(2) by (simp add: isMaxDeptReached_def)
  have b: "getPathDepth h (fullPath e) - getPathDepth h (expandHomePath h projectBasePath)
             \<le> maxDepth s"
    if "e \<in> set (discoveries h k s projectBasePath)" "0 < maxDepth s"
    using that a by (auto simp: discoveries_def mkDirInfo_def split: option.splits)
  have c: "filterDirCallback h s d = (\<lambda>dir. \<not> isFolderIgnored s (basename h dir))"
    if "maxDepth s \<le> 0" for d
    using that by (simp add: fun_eq_iff filterDirCallback_def isMaxDeptReached_def)
  show ?thesis
    using a b c by (auto simp: walkBase_def isMaxDeptReached_def)
qed

theorem walk_respects_maxDepth_witness:
  "''/home/u/work/a/x'' \<in> set (walkBase (posixHost workTree) workStart ''/home/u/work'' workNode) \<and>
   0 < maxDepth workStart \<and>
   getPathDepth (posixHost workTree) ''/home/u/work/a/x'' -
     getPathDepth (posixHost workTree) ''/home/u/work'' \<le> maxDepth workStart \<and>
   maxDepth newLocator \<le> 0 \<and>
   walkBase (posixHost workTree) newLocator ''/home/u/work'' workNode =
     walker (posixHost workTree)
       (\<lambda>dir. \<not> isFolderIgnored newLocator (basename (posixHost workTree) dir))
       ''/home/u/work'' workNode"
proof -
  have h1: "''/home/u/work/a/x'' \<in>
              set (walkBase (posixHost workTree) workStart ''/home/u/work'' workNode)"
    by code_simp
  have h2: "0 < maxDepth workStart"
    by code_simp
  have h3: "maxDepth newLocator \<le> 0"
    by code_simp
  from walk_respects_maxDepth
         [where h = "posixHost workTree" and s = workStart and dir = "''/home/u/work/a/x''"
            and expandedBasePath = "''/home/u/work''" and node = workNode]
  have c1: "getPathDepth (posixHost workTree) ''/home/u/work/a/x'' -
              getPathDepth (posixHost workTree) ''/home/u/work'' \<le> maxDepth workStart"
    using h1 h2 by blast
  from walk_respects_maxDepth
         [where h = "posixHost workTree" and s = newLocator
            and expandedBasePath = "''/home/u/work''" and node = workNode]
  have c2: "walkBase (posixHost workTree) newLocator ''/home/u/work'' workNode =
     walker (posixHost workTree)
       (\<lambda>dir. \<not> isFolderIgnored newLocator (basename (posixHost workTree) dir))
       ''/home/u/work'' workNode"
    using h3 by blast
  from h1 h2 h3 c1 c2 show ?thesis by blast
qed

text \<open>
  C1, as stated, at the tree below \<^verbatim>\<open>/home/u/work\<close> with \<^verbatim>\<open>node_modules\<close> ignored:
  \<^verbatim>\<open>/home/u/work/a/node_modules\<close> has an ignored base name and \<open>isRepoDir\<close> holds for
  it, yet the scan resolves with \<^verbatim>\<open>a\<close> alone. The walker asks the callback before it
  announces a directory, so the ignored directory never reaches \<open>processDirectory\<close>.
\<close>

theorem ignored_repo_counterexample:
  "isFolderIgnored workStart
     (basename (posixHost workTree) ''/home/u/work/a/node_modules'') \<and>
   isRepoDir gitHooks ''/home/u/work/a/node_modules'' \<and>
   snd (locateProjects (posixHost workTree) gitHooks workStart) =
     Resolved [\<lparr>fullPath = ''/home/u/work/a'', name = ''a''\<rparr>]"
  by code_simp

text \<open>
  C1, amended. During a walk of \<open>locateProjects\<close>, no directory whose base name is in
  the ignored set is announced: it is neither passed to \<open>isRepoDir\<close> nor descended
  into. The walk of the tree below such a directory announces nothing, so neither the
  directory nor anything below it is added to the list, and no entry a base folder adds
  has an ignored base name.
\<close>

theorem walk_skips_ignored:
  "(dir \<in> set (walkBase h s expandedBasePath node) \<longrightarrow>
      \<not> isFolderIgnored s (basename h dir)) \<and>
   (isFolderIgnored s (basename h entry) \<longrightarrow>
      walker h (filterDirCallback h s depth) entry node' = []) \<and>
   (e \<in> set (discoveries h k s projectBasePath) \<longrightarrow>
      \<not> isFolderIgnored s (basename h (fullPath e)))"
proof -
  have a: "\<not> isFolderIgnored s (basename h dir)"
    if "dir \<in> set (walkBase h s b n)" for dir b n
    using walkBase_filter [OF that] by simp
  have b: "walker h (filterDirCallback h s depth) entry node' = []"
    if "isFolderIgnored s (basename h entry)"
    by (rule walker_rejected) (simp add: filterDirCallback_def that)
  have c: "\<not> isFolderIgnored s (basename h (fullPath e))"
    if "e \<in> set (discoveries h k s projectBasePath)"
    using that a by (auto simp: discoveries_def mkDirInfo_def split: option.splits)
  show ?thesis using a b c by blast
qed

theorem walk_skips_ignored_witness:
  "''/home/u/work/a'' \<in> set (walkBase (posixHost workTree) workStart ''/home/u/work'' workNode) \<and>
   \<not> isFolderIgnored workStart (basename (posixHost workTree) ''/home/u/work/a'') \<and>
   isFolderIgnored workStart
     (basename (posixHost workTree) ''/home/u/work/a/node_modules'') \<and>
   walker (posixHost workTree) (filterDirCallback (posixHost workTree) workStart 4)
     ''/home/u/work/a/node_modules'' modulesNode = []"
proof -
  have h1: "''/home/u/work/a'' \<in>
              set (walkBase (posixHost workTree) workStart ''/home/u/work'' workNode)"
    by code_simp
  have h2: "isFolderIgnored workStart
              (basename (posixHost workTree) ''/home/u/work/a/node_modules'')"
    by code_simp
  from walk_skips_ignored
         [where h = "posixHost workTree" and s = workStart and dir = "''/home/u/work/a''"
            and expandedBasePath = "''/home/u/work''" and node = workNode
            and entry = "''/home/u/work/a/node_modules''" and depth = 4
            and node' = modulesNode]
       h1 h2
  show ?thesis by blast
qed

subsection \<open>Locating twice, refreshing, looking a path up\<close>




text \<open>The lookup never hands a root to the walker, and finds the first matching entry.\<close>

lemma initializeCfg_walked: "walked (fst (initializeCfg h s)) = walked s"
  by (simp add: initializeCfg_def clearDirList_def setAlreadyLocated_True Let_def
      split: option.split file_content.split)

lemma findRootPath_found:
  "e \<in> set l \<Longrightarrow>
   toLocaleLowerCase h (fullPath e) = toLocaleLowerCase h rootPath \<or>
   toLocaleLowerCase h (fullPath e) = usingHome \<Longrightarrow>
   \<exists>e' \<in> set l.
     (toLocaleLowerCase h (fullPath e') = toLocaleLowerCase h rootPath \<or>
      toLocaleLowerCase h (fullPath e') = usingHome) \<and>
     findRootPath h rootPath usingHome l =
       Found \<lparr>p_rootPath = fullPath e', p_name = name e', p_group = [], p_paths = []\<rparr>"
proof (induction l)
  case Nil
  then show ?case by simp
next
  case (Cons x xs)
  show ?case
  proof (cases "toLocaleLowerCase h (fullPath x) = toLocaleLowerCase h rootPath \<or>
                toLocaleLowerCase h (fullPath x) = usingHome")
    case True
    then show ?thesis by auto
  next
    case False
    with Cons.prems have "e \<in> set xs" by auto
    from Cons.IH [OF this Cons.prems(2)] False show ?thesis by auto
  qed
qed

text \<open>
  C6. \<open>existsWithRootPath\<close> first runs \<open>initializeCfg\<close>, which loads the cache file if
  there is one, and then tests \<open>isAlreadyLocated()\<close>. If that holds and an entry of the
  list equals the path, or the path with the home directory abbreviated, once both
  sides are in lower case, the result is the record of such an entry (the first).
  If it does not hold the result is \<open>null\<close>; that is the case when the flag is not set
  and there is no cache file to load. In no case is a root handed to the walker.
\<close>

theorem existsWithRootPath_lookup:
  "walked (fst (existsWithRootPath h s rootPath)) = walked s \<and>
   (snd (initializeCfg h s) = Inr () \<and> \<not> isAlreadyLocated (fst (initializeCfg h s)) \<longrightarrow>
      snd (existsWithRootPath h s rootPath) = Inr Null) \<and>
   (\<not> alreadyLocated s \<and> disk s (getCacheFile h s) = None \<longrightarrow>
      snd (existsWithRootPath h s rootPath) = Inr Null) \<and>
   (snd (initializeCfg h s) = Inr () \<and> isAlreadyLocated (fst (initializeCfg h s)) \<and>
    e \<in> set (dirList (fst (initializeCfg h s))) \<and>
    (toLocaleLowerCase h (fullPath e) = toLocaleLowerCase h rootPath \<or>
     toLocaleLowerCase h (fullPath e) =
       toLocaleLowerCase h (compactHomePath h rootPath)) \<longrightarrow>
      (\<exists>e' \<in> set (dirList (fst (initializeCfg h s))).
         (toLocaleLowerCase h (fullPath e') = toLocaleLowerCase h rootPath \<or>
          toLocaleLowerCase h (fullPath e') =
            toLocaleLowerCase h (compactHomePath h rootPath)) \<and>
         snd (existsWithRootPath h s rootPath) =
           Inr (Found \<lparr>p_rootPath = fullPath e', p_name = name e',
                        p_group = [], p_paths = []\<rparr>)))"
proof -
  obtain s1 r where init: "initializeCfg h s = (s1, r)"
    by (cases "initializeCfg h s")
  have w: "walked (fst (existsWithRootPath h s rootPath)) = walked s"
    using initializeCfg_walked [of h s] init
    by (simp add: existsWithRootPath_def Let_def split: sum.split)
  have n: "snd (existsWithRootPath h s rootPath) = Inr Null"
    if "r = Inr ()" "\<not> isAlreadyLocated s1"
    using that init by (simp add: existsWithRootPath_def)
  have n': "snd (existsWithRootPath h s rootPath) = Inr Null"
    if "\<not> alreadyLocated s" "disk s (getCacheFile h s) = None"
    using that
    by (simp add: existsWithRootPath_def initializeCfg_def isAlreadyLocated_def
          clearDirList_def)
  have f: "\<exists>e' \<in> set (dirList s1).
         (toLocaleLowerCase h (fullPath e') = toLocaleLowerCase h rootPath \<or>
          toLocaleLowerCase h (fullPath e') =
            toLocaleLowerCase h (compactHomePath h rootPath)) \<and>
         snd (existsWithRootPath h s rootPath) =
           Inr (Found \<lparr>p_rootPath = fullPath e', p_name = name e',
                        p_group = [], p_paths = []\<rparr>)"
    if "r = Inr ()" "isAlreadyLocated s1" "e \<in> set (dirList s1)"
       "toLocaleLowerCase h (fullPath e) = toLocaleLowerCase h rootPath \<or>
        toLocaleLowerCase h (fullPath e) = toLocaleLowerCase h (compactHomePath h rootPath)"
    using findRootPath_found [OF that(3) that(4)] that(1,2) init
    by (simp add: existsWithRootPath_def Let_def)
  show ?thesis
    using w n n' f init by simp
qed

theorem existsWithRootPath_lookup_witness:
  "snd (initializeCfg (posixHost workTree) cachedLocator) = Inr () \<and>
   isAlreadyLocated (fst (initializeCfg (posixHost workTree) cachedLocator)) \<and>
   \<lparr>fullPath = ''/home/u/work/a'', name = ''a''\<rparr> \<in>
     set (dirList (fst (initializeCfg (posixHost workTree) cachedLocator))) \<and>
   (\<exists>e' \<in> set (dirList (fst (initializeCfg (posixHost workTree) cachedLocator))).
      snd (existsWithRootPath (posixHost workTree) cachedLocator ''/Home/U/Work/A'') =
        Inr (Found \<lparr>p_rootPath = fullPath e', p_name = name e',
                     p_group = [], p_paths = []\<rparr>)) \<and>
   snd (existsWithRootPath (posixHost workTree) cachedLocator ''/Home/U/Work/A'') =
     Inr (Found \<lparr>p_rootPath = ''/home/u/work/a'', p_name = ''a'',
                  p_group = [], p_paths = []\<rparr>) \<and>
   \<not> alreadyLocated workStart \<and>
   snd (existsWithRootPath (posixHost workTree) workStart ''/home/u/work/a'') = Inr Null"
proof -
  have h1: "snd (initializeCfg (posixHost workTree) cachedLocator) = Inr ()"
    by code_simp
  have h2: "isAlreadyLocated (fst (initializeCfg (posixHost workTree) cachedLocator))"
    by code_simp
  have h3: "\<lparr>fullPath = ''/home/u/work/a'', name = ''a''\<rparr> \<in>
              set (dirList (fst (initializeCfg (posixHost workTree) cachedLocator)))"
    by code_simp
  have h4: "toLocaleLowerCase (posixHost workTree)
              (fullPath \<lparr>fullPath = ''/home/u/work/a'', name = ''a''\<rparr>) =
            toLocaleLowerCase (posixHost workTree) ''/Home/U/Work/A''"
    by code_simp
  have h5: "\<not> alreadyLocated workStart"
    by code_simp
  have h6: "disk workStart (getCacheFile (posixHost workTree) workStart) = None"
    by code_simp
  have v: "snd (existsWithRootPath (posixHost workTree) cachedLocator ''/Home/U/Work/A'') =
     Inr (Found \<lparr>p_rootPath = ''/home/u/work/a'', p_name = ''a'',
                  p_group = [], p_paths = []\<rparr>)"
    by code_simp
  from existsWithRootPath_lookup
         [where h = "posixHost workTree" and s = cachedLocator
            and rootPath = "''/Home/U/Work/A''"
            and e = "\<lparr>fullPath = ''/home/u/work/a'', name = ''a''\<rparr>"]
       h1 h2 h3 h4
  have found: "\<exists>e' \<in> set (dirList (fst (initializeCfg (posixHost workTree) cachedLocator))).
      snd (existsWithRootPath (posixHost workTree) cachedLocator ''/Home/U/Work/A'') =
        Inr (Found \<lparr>p_rootPath = fullPath e', p_name = name e',
                     p_group = [], p_paths = []\<rparr>)"
    by blast
  from existsWithRootPath_lookup
         [where h = "posixHost workTree" and s = workStart
            and rootPath = "''/home/u/work/a''"]
       h5 h6
  have null: "snd (existsWithRootPath (posixHost workTree) workStart ''/home/u/work/a'') =
                Inr Null"
    by blast
  from h1 h2 h3 h5 v found null show ?thesis by blast
qed

text \<open>After the reset, \<open>getCacheFile\<close> names no file, unless both of its paths held one.\<close>

lemma reset_no_cache_left:
  "\<not> linux h \<or> disk s (primaryCache h) = None \<or> disk s (fallbackCache h) = None \<Longrightarrow>
   disk s' = (disk s)(getCacheFile h s := None) \<Longrightarrow>
   disk s' (getCacheFile h s') = None"
  by (auto simp: getCacheFile_def)

text \<open>
  C5, as stated, at two inputs. With caching switched off in the configuration, the
  flag \<open>alreadyLocated\<close> of a located locator is still set when \<open>refreshProjects\<close>
  reaches its call of \<open>locateProjects\<close>. And on Linux with a cache file under both
  paths, \<open>refreshProjects\<close> deletes the first, \<open>getCacheFile\<close> then names the second,
  and the \<open>locateProjects\<close> it calls loads that file: no root is handed to the walker,
  the list is the stale one, and a cache file is still there.
\<close>

theorem refreshProjects_reset_counterexample:
  "alreadyLocated locatedLocator \<and>
   alreadyLocated (fst (refreshProjectsReset (posixHost workTree) uncachedConfig
                          locatedLocator)) \<and>
   disk twoCachesLocator ''/var/local/Code/User/projects_cache_git.json'' =
     Some (Json [\<lparr>fullPath = ''/home/u/work/a'', name = ''a''\<rparr>]) \<and>
   walked twoCachesLocator = [] \<and>
   walked (fst (refreshProjects (posixHost workTree) gitHooks workConfig
                  twoCachesLocator)) = [] \<and>
   dirList (fst (refreshProjects (posixHost workTree) gitHooks workConfig
                   twoCachesLocator)) =
     [\<lparr>fullPath = ''/home/u/old'', name = ''old''\<rparr>] \<and>
   disk (fst (refreshProjects (posixHost workTree) gitHooks workConfig twoCachesLocator))
     ''/home/u/.config/Code/User/projects_cache_git.json'' =
     Some (Json [\<lparr>fullPath = ''/home/u/old'', name = ''old''\<rparr>])"
  by code_simp

text \<open>
  C5, amended. Whatever the cache setting was before, \<open>refreshProjects\<close> returns what
  \<open>refreshConfig\<close> returns, empties the list, and deletes the file \<open>getCacheFile\<close>
  names if it exists, leaving every other file. Its \<open>setAlreadyLocated(false)\<close>
  resets the flag when the refreshed configuration has caching on and leaves the flag
  as it was otherwise; \<open>isAlreadyLocated()\<close> is false in both cases. The
  \<open>locateProjects\<close> it then calls scans every existing base folder, provided the
  configuration has an array of base folders and, on Linux, the two paths of
  \<open>getCacheFile\<close> did not both hold a file; its promise resolves with what the scan
  found, and stays pending only when the scan is to be cached and writing the cache
  file throws.
\<close>

theorem refreshProjects_reset:
  "snd (refreshProjects h k cfg s) = snd (refreshConfig cfg s) \<and>
   dirList (fst (refreshProjectsReset h cfg s)) = [] \<and>
   disk (fst (refreshProjectsReset h cfg s)) = (disk s)(getCacheFile h s := None) \<and>
   alreadyLocated (fst (refreshProjectsReset h cfg s)) =
     (if cfg_cacheProjectsBetweenSessions cfg then False else alreadyLocated s) \<and>
   isAlreadyLocated (fst (refreshProjectsReset h cfg s)) = False \<and>
   (cfg_baseFolders cfg = Some projectsDirList \<and>
    (\<not> linux h \<or> disk s (primaryCache h) = None \<or> disk s (fallbackCache h) = None) \<longrightarrow>
      snd (locateProjects h k (fst (refreshProjectsReset h cfg s))) =
        (if projectsDirList \<noteq> [] \<and> cfg_cacheProjectsBetweenSessions cfg \<and>
            \<not> writable h (getCacheFile h (fst (refreshProjectsReset h cfg s)))
         then Pending
         else Resolved (concat (map (discoveries h k (fst (refreshProjectsReset h cfg s)))
                                  projectsDirList))) \<and>
      walked (fst (refreshProjects h k cfg s)) = walked s @ walkedRoots h projectsDirList)"
proof -
  let ?s4 = "fst (refreshProjectsReset h cfg s)"
  have scan: "snd (locateProjects h k ?s4) =
                (if projectsDirList \<noteq> [] \<and> cfg_cacheProjectsBetweenSessions cfg \<and>
                    \<not> writable h (getCacheFile h ?s4)
                 then Pending
                 else Resolved (concat (map (discoveries h k ?s4) projectsDirList))) \<and>
              walked (fst (locateProjects h k ?s4)) = walked s @ walkedRoots h projectsDirList"
    if bs: "cfg_baseFolders cfg = Some projectsDirList"
      and one: "\<not> linux h \<or> disk s (primaryCache h) = None \<or> disk s (fallbackCache h) = None"
  proof (cases "projectsDirList = []")
    case True
    have "baseFolders ?s4 = Some []" "walked ?s4 = walked s"
      using bs True by (simp_all add: refreshProjectsReset_eq refreshConfig_eq)
    then show ?thesis
      using True by (simp add: locateProjects_def walkedRoots_def)
  next
    case False
    have b4: "baseFolders ?s4 = Some projectsDirList"
      using bs by (simp add: refreshProjectsReset_eq refreshConfig_eq)
    have w4: "walked ?s4 = walked s"
      by (simp add: refreshProjectsReset_eq refreshConfig_eq)
    have u4: "useCachedProjects ?s4 = cfg_cacheProjectsBetweenSessions cfg"
      by (simp add: refreshProjectsReset_eq refreshConfig_eq)
    show ?thesis
    proof (cases "cfg_cacheProjectsBetweenSessions cfg")
      case True
      have gone: "disk ?s4 (getCacheFile h ?s4) = None"
        by (rule reset_no_cache_left [OF one]) (simp add: refreshProjectsReset_eq)
      have flag: "\<not> alreadyLocated ?s4"
        using True by (simp add: refreshProjectsReset_eq)
      from locateProjects_fresh [OF _ b4 False gone flag, of k] u4 True w4 False
      show ?thesis by simp
    next
      case off: False
      from locateProjects_uncached_scan [OF _ b4 False, of h k] u4 off w4
      show ?thesis by simp
    qed
  qed
  have rest: "snd (refreshProjects h k cfg s) = snd (refreshConfig cfg s) \<and>
   dirList ?s4 = [] \<and> disk ?s4 = (disk s)(getCacheFile h s := None) \<and>
   alreadyLocated ?s4 =
     (if cfg_cacheProjectsBetweenSessions cfg then False else alreadyLocated s) \<and>
   isAlreadyLocated ?s4 = False"
    by (simp add: refreshProjects_def Let_def refreshProjectsReset_eq isAlreadyLocated_def
          refreshConfig_eq)
  have fstr: "fst (refreshProjects h k cfg s) = fst (locateProjects h k ?s4)"
    by (simp add: refreshProjects_def Let_def)
  show ?thesis
    using scan rest unfolding fstr by blast
qed

theorem refreshProjects_reset_witness:
  "cfg_baseFolders workConfig = Some [''~/work''] \<and>
   disk cachedLocator (primaryCache (posixHost workTree)) = None \<and>
   disk cachedLocator (getCacheFile (posixHost workTree) cachedLocator) =
     Some (Json [\<lparr>fullPath = ''/home/u/work/a'', name = ''a''\<rparr>]) \<and>
   disk (fst (refreshProjectsReset (posixHost workTree) workConfig cachedLocator))
     (getCacheFile (posixHost workTree) cachedLocator) = None \<and>
   alreadyLocated cachedLocator \<and>
   alreadyLocated (fst (refreshProjectsReset (posixHost workTree) workConfig
                          cachedLocator)) = False \<and>
   snd (locateProjects (posixHost workTree) gitHooks
          (fst (refreshProjectsReset (posixHost workTree) workConfig cachedLocator))) =
     Resolved [\<lparr>fullPath = ''/home/u/work/a'', name = ''a''\<rparr>] \<and>
   walked (fst (refreshProjects (posixHost workTree) gitHooks workConfig cachedLocator)) =
     [''/home/u/work'']"
proof -
  have h1: "cfg_baseFolders workConfig = Some [''~/work'']"
    by code_simp
  have h2: "disk cachedLocator (primaryCache (posixHost workTree)) = None"
    by code_simp
  have h3: "cfg_cacheProjectsBetweenSessions workConfig"
    by code_simp
  have h4: "disk cachedLocator (getCacheFile (posixHost workTree) cachedLocator) =
              Some (Json [\<lparr>fullPath = ''/home/u/work/a'', name = ''a''\<rparr>])"
    by code_simp
  have h5: "alreadyLocated cachedLocator"
    by code_simp
  have h6: "writable (posixHost workTree)
              (getCacheFile (posixHost workTree)
                 (fst (refreshProjectsReset (posixHost workTree) workConfig cachedLocator)))"
    by code_simp
  have d: "concat (map (discoveries (posixHost workTree) gitHooks
                          (fst (refreshProjectsReset (posixHost workTree) workConfig
                                  cachedLocator)))
                     [''~/work'']) =
           [\<lparr>fullPath = ''/home/u/work/a'', name = ''a''\<rparr>]"
    by code_simp
  have w: "walked cachedLocator @ walkedRoots (posixHost workTree) [''~/work''] =
             [''/home/u/work'']"
    by code_simp
  note t = refreshProjects_reset
             [where h = "posixHost workTree" and k = gitHooks and cfg = workConfig
                and s = cachedLocator and projectsDirList = "[''~/work'']"]
  have gone: "disk (fst (refreshProjectsReset (posixHost workTree) workConfig cachedLocator))
                (getCacheFile (posixHost workTree) cachedLocator) = None"
    using t by simp
  have flag: "alreadyLocated (fst (refreshProjectsReset (posixHost workTree) workConfig
                                     cachedLocator)) = False"
    using t h3 by simp
  have scan: "snd (locateProjects (posixHost workTree) gitHooks
          (fst (refreshProjectsReset (posixHost workTree) workConfig cachedLocator))) =
        Resolved (concat (map (discoveries (posixHost workTree) gitHooks
                            (fst (refreshProjectsReset (posixHost workTree) workConfig
                                    cachedLocator)))
                       [''~/work''])) \<and>
      walked (fst (refreshProjects (posixHost workTree) gitHooks workConfig cachedLocator)) =
        walked cachedLocator @ walkedRoots (posixHost workTree) [''~/work'']"
    using t h1 h2 h6 by simp
  from h1 h2 h4 h5 gone flag scan d w show ?thesis by metis
qed

end
